theory Spec2Isabelle
  imports Main "HOL-Library.Finite_Map"
begin

section \<open>strutil: splitting a string by display width\<close>

text \<open>
  The functions of \<^verbatim>\<open>strutil/runes.go\<close> work on \<^verbatim>\<open>[]rune(s)\<close>. A (valid UTF-8) Go string
  is represented here by its sequence of runes, a rune by its code point; \<^verbatim>\<open>string(r)\<close>
  is the one-rune sequence and \<^verbatim>\<open>+=\<close> on strings is append.

  \<^verbatim>\<open>width.LookupRune(r).Kind()\<close> belongs to the library golang.org/x/text/width; its
  table is a parameter \<open>kind\<close> of every function below.
\<close>

type_synonym rune = nat

datatype Kind = Neutral | EastAsianAmbiguous | EastAsianWide | EastAsianNarrow
  | EastAsianFullwidth | EastAsianHalfwidth

definition RuneWidth :: "(rune \<Rightarrow> Kind) \<Rightarrow> rune \<Rightarrow> int" where
  "RuneWidth kind r =
     (let k = kind r in
      if k = Neutral then 0
      else if k = EastAsianFullwidth \<or> k = EastAsianWide \<or> k = EastAsianAmbiguous then 2
      else 1)"

fun Utf8Width :: "(rune \<Rightarrow> Kind) \<Rightarrow> rune list \<Rightarrow> int" where
  "Utf8Width kind [] = 0"
| "Utf8Width kind (r # rs) = RuneWidth kind r + Utf8Width kind rs"

text \<open>
  The loop of \<^verbatim>\<open>Utf8Split\<close>: \<open>tmpW\<close> and \<open>tmpS\<close> are the width and the text of the chunk
  being filled, \<open>ss\<close> the chunks already emitted. After the last rune the pending chunk is
  emitted only if \<^verbatim>\<open>tmpW > 0\<close>.
\<close>

fun Utf8Split_loop ::
  "(rune \<Rightarrow> Kind) \<Rightarrow> int \<Rightarrow> rune list \<Rightarrow> int \<Rightarrow> rune list \<Rightarrow> rune list list \<Rightarrow> rune list list"
where
  "Utf8Split_loop kind w [] tmpW tmpS ss = (if tmpW > 0 then ss @ [tmpS] else ss)"
| "Utf8Split_loop kind w (r # rs) tmpW tmpS ss =
     (let rw = RuneWidth kind r in
      if tmpW + rw = w then Utf8Split_loop kind w rs 0 [] (ss @ [tmpS @ [r]])
      else if tmpW + rw > w then Utf8Split_loop kind w rs rw [r] (ss @ [tmpS])
      else Utf8Split_loop kind w rs (tmpW + rw) (tmpS @ [r]) ss)"

definition Utf8Split :: "(rune \<Rightarrow> Kind) \<Rightarrow> rune list \<Rightarrow> int \<Rightarrow> rune list list" where
  "Utf8Split kind s w =
     (if Utf8Width kind s \<le> w then [s] else Utf8Split_loop kind w s 0 [] [])"

text \<open>
  The kinds of the ASCII range as the width table has them: control characters are
  neutral (the source's own example is the newline, \<^verbatim>\<open>RuneWidth('\n') // 0\<close>), the
  printable characters are narrow (\<^verbatim>\<open>RuneWidth('a') // 1\<close>). Runes outside ASCII are not
  used with this table.
\<close>

definition asciiKind :: "rune \<Rightarrow> Kind" where
  "asciiKind r = (if r < 32 \<or> r = 127 then Neutral else EastAsianNarrow)"

section \<open>cflag: the data of a binder\<close>

text \<open>
  Values of Go's \<^verbatim>\<open>interface{}\<close> as far as the binder handles them: the default of
  an argument, the string bound to it by parsing, the value passed to a validator.
\<close>

datatype anyval = VNil | VStr string | VInt int | VBool bool

text \<open>
  Errors returned by parsing, by their format strings:
  \<^verbatim>\<open>flag option '%s' is required\<close>, \<^verbatim>\<open>flag option '%s': %s\<close>,
  \<^verbatim>\<open>argument '%s'(#%d) is required\<close>; \<^verbatim>\<open>flag.ErrHelp\<close>; any other error of the flag
  engine; an error returned by the handler \<^verbatim>\<open>Func\<close>.
\<close>

datatype error = OptRequired string | OptInvalid string string | ArgRequired string nat
  | ErrHelp | FlagError string | FuncError string

text \<open>
  Panics, by their messages: \<^verbatim>\<open>shortcut '%s' has been used by option '%s'\<close>,
  \<^verbatim>\<open>arg '%s' have been registered\<close>, \<^verbatim>\<open>option '%s' is not registered\<close>,
  \<^verbatim>\<open>name '%s' has been as shortcut by '%s'\<close>, the error of \<^verbatim>\<open>arg.check()\<close>, the nil
  dereference of \<^verbatim>\<open>c.Lookup(name).Value\<close> for an undeclared name, and the slice
  expression \<^verbatim>\<open>os.Args[1:]\<close> on an empty \<^verbatim>\<open>os.Args\<close>.
\<close>

datatype panic = ShortcutUsed string string | ArgRegistered string | OptNotRegistered string
  | NameIsShortcut string string | ArgCheck string | NilFlag string | SliceBounds

text \<open>A call that returns a value or panics.\<close>

datatype 'a outcome = Return 'a | Panic panic

text \<open>
  Modelled from the spec: the struct \<^verbatim>\<open>FlagOpt\<close> is declared outside the given sources.
  The spec's OptionBinding has a required flag, an ordered sequence of shortcuts and an
  optional validator from a value to an error; the source reads and writes the fields
  \<^verbatim>\<open>Required\<close>, \<^verbatim>\<open>Shortcuts\<close> and \<^verbatim>\<open>Validator\<close> (here with the prefix \<open>opt\<close>, since
  \<^verbatim>\<open>FlagArg\<close> has a field \<^verbatim>\<open>Required\<close> too). The zero value \<^verbatim>\<open>&FlagOpt{}\<close> is \<open>FlagOpt0\<close>.
\<close>

record FlagOpt =
  optRequired :: bool
  optShortcuts :: "string list"
  optValidator :: "(anyval \<Rightarrow> string option) option"

definition FlagOpt0 :: FlagOpt where
  "FlagOpt0 = \<lparr>optRequired = False, optShortcuts = [], optValidator = None\<rparr>"

text \<open>
  Modelled from the spec: the struct \<^verbatim>\<open>FlagArg\<close> is declared outside the given sources.
  The spec's ArgumentBinding has a name, a description, an index, a required flag and a
  value; the source uses the fields \<^verbatim>\<open>Name\<close>, \<^verbatim>\<open>Desc\<close>, \<^verbatim>\<open>Index\<close>, \<^verbatim>\<open>Required\<close> and
  \<^verbatim>\<open>V\<close> (of the embedded value: \<^verbatim>\<open>AddArg\<close> stores the default there and parsing
  overwrites it with the token).
\<close>

record FlagArg =
  Name :: string
  Desc :: string
  V :: anyval
  Index :: nat
  Required :: bool

text \<open>
  The delegate \<^verbatim>\<open>flag.FlagSet\<close> of the standard library, as far as the binder reads it:
  the declared flags by name (\<^verbatim>\<open>Lookup\<close>), each with its usage text, the string
  \<^verbatim>\<open>Value.String()\<close> and, when the value is a \<^verbatim>\<open>flag.Getter\<close>, the result of \<^verbatim>\<open>Get()\<close>;
  and the positional tokens \<^verbatim>\<open>Args()\<close> left by the last parse. A boolean flag takes no
  value token.
\<close>

record Flag =
  Usage :: string
  Value :: string
  Getter :: "anyval option"
  IsBoolFlag :: bool

record FlagSet =
  formal :: "(string, Flag) fmap"
  Args :: "string list"

text \<open>
  The binder. The Go maps \<^verbatim>\<open>bindOpts\<close>, \<^verbatim>\<open>shortcuts\<close> and \<^verbatim>\<open>bindArgs\<close> are finite
  maps. Go leaves the order in which \<^verbatim>\<open>range\<close> visits a map unspecified, so every
  function below that ranges over one of them takes the list of keys in the order of the
  visit as an argument; a key of that list that is not in the map is skipped. The text
  fields (\<^verbatim>\<open>Desc\<close>, \<^verbatim>\<open>Version\<close>, \<^verbatim>\<open>Example\<close>, \<^verbatim>\<open>LongHelp\<close>) are read by the help panel only
  and are left out; the handler \<^verbatim>\<open>Func\<close> is an argument of \<open>Parse\<close>.
\<close>

record CFlags =
  flagSet :: FlagSet
  bindOpts :: "(string, FlagOpt) fmap"
  shortcuts :: "(string, string) fmap"
  argWidth :: nat
  bindArgs :: "(string, FlagArg) fmap"
  remainArgs :: "string list"

text \<open>
  \<^verbatim>\<open>NewEmpty\<close> makes the maps and leaves the flag set to its caller; \<^verbatim>\<open>New\<close> installs a
  fresh flag set without flags. The record holds that empty flag set from the start.
\<close>

definition NewEmpty :: CFlags where
  "NewEmpty = \<lparr>flagSet = \<lparr>formal = fmempty, Args = []\<rparr>, bindOpts = fmempty,
     shortcuts = fmempty, argWidth = 12, bindArgs = fmempty, remainArgs = []\<rparr>"

section \<open>cflag: registration\<close>

text \<open>
  \<^verbatim>\<open>addShortcuts\<close>: the loop panics at the first token that is already in the table; the
  tokens before it stay registered.
\<close>

fun addShortcuts :: "string \<Rightarrow> string list \<Rightarrow> CFlags \<Rightarrow> CFlags \<times> panic option" where
  "addShortcuts name [] c = (c, None)"
| "addShortcuts name (short # shorts) c =
     (case fmlookup (shortcuts c) short of
        Some regName \<Rightarrow> (c, Some (ShortcutUsed short regName))
      | None \<Rightarrow> addShortcuts name shorts (c\<lparr>shortcuts := fmupd short name (shortcuts c)\<rparr>))"

definition ConfigOpt :: "string \<Rightarrow> (FlagOpt \<Rightarrow> FlagOpt) \<Rightarrow> CFlags \<Rightarrow> CFlags \<times> panic option" where
  "ConfigOpt name fn c =
     (case fmlookup (formal (flagSet c)) name of
        None \<Rightarrow> (c, Some (OptNotRegistered name))
      | Some _ \<Rightarrow>
          (let opt = (case fmlookup (bindOpts c) name of None \<Rightarrow> FlagOpt0 | Some opt \<Rightarrow> opt)
           in (c\<lparr>bindOpts := fmupd name (fn opt) (bindOpts c)\<rparr>, None)))"

definition AddValidator :: "string \<Rightarrow> (anyval \<Rightarrow> string option) \<Rightarrow> CFlags \<Rightarrow> CFlags \<times> panic option" where
  "AddValidator name fn c = ConfigOpt name (\<lambda>opt. opt\<lparr>optValidator := Some fn\<rparr>) c"

definition AddShortcuts :: "string \<Rightarrow> string list \<Rightarrow> CFlags \<Rightarrow> CFlags \<times> panic option" where
  "AddShortcuts name shorts c =
     (case addShortcuts name shorts c of
        (c', Some p) \<Rightarrow> (c', Some p)
      | (c', None) \<Rightarrow> ConfigOpt name (\<lambda>opt. opt\<lparr>optShortcuts := optShortcuts opt @ shorts\<rparr>) c')"

text \<open>
  \<^verbatim>\<open>BindArg\<close>. The method \<^verbatim>\<open>arg.check()\<close> is declared outside the given sources and is the
  parameter \<open>check\<close> (the message of its error, if any). The index is the number of
  arguments bound so far, \<^verbatim>\<open>len(c.bindArgs)\<close>.
\<close>

definition BindArg :: "(FlagArg \<Rightarrow> string option) \<Rightarrow> FlagArg \<Rightarrow> CFlags \<Rightarrow> CFlags \<times> panic option" where
  "BindArg check arg0 c =
     (let arg = arg0\<lparr>Index := fcard (fmdom (bindArgs c))\<rparr> in
      case check arg of
        Some msg \<Rightarrow> (c, Some (ArgCheck msg))
      | None \<Rightarrow>
          if fmlookup (bindArgs c) (Name arg) \<noteq> None then (c, Some (ArgRegistered (Name arg)))
          else (c\<lparr>bindArgs := fmupd (Name arg) arg (bindArgs c),
                  argWidth := max (argWidth c) (length (Name arg))\<rparr>, None))"

definition AddArg ::
  "(FlagArg \<Rightarrow> string option) \<Rightarrow> string \<Rightarrow> string \<Rightarrow> bool \<Rightarrow> anyval \<Rightarrow> CFlags \<Rightarrow> CFlags \<times> panic option"
where
  "AddArg check name desc required v c =
     BindArg check \<lparr>Name = name, Desc = desc, V = v, Index = 0, Required = required\<rparr> c"

text \<open>A sequence of \<^verbatim>\<open>BindArg\<close> calls on one binder; it ends at the first panic.\<close>

fun BindArgs :: "(FlagArg \<Rightarrow> string option) \<Rightarrow> FlagArg list \<Rightarrow> CFlags \<Rightarrow> CFlags \<times> panic option" where
  "BindArgs check [] c = (c, None)"
| "BindArgs check (arg # rest) c =
     (case BindArg check arg c of
        (c', Some p) \<Rightarrow> (c', Some p)
      | (c', None) \<Rightarrow> BindArgs check rest c')"

section \<open>cflag: parsing\<close>

subsection \<open>Helpers of other packages\<close>

text \<open>
  \<^verbatim>\<open>strings.Trim(s, cutset)\<close> of the standard library removes the leading and trailing
  characters that are in the cutset.
\<close>

definition Trim :: "string \<Rightarrow> string \<Rightarrow> string" where
  "Trim s cutset =
     rev (dropWhile (\<lambda>ch. ch \<in> set cutset) (rev (dropWhile (\<lambda>ch. ch \<in> set cutset) s)))"

text \<open>
  The helpers \<^verbatim>\<open>strutil.UpperFirst\<close>, \<^verbatim>\<open>strutil.SplitNTrimmed\<close>, \<^verbatim>\<open>strutil.Bool\<close> and
  \<^verbatim>\<open>strutil.Split\<close> are declared outside the given sources; \<open>parseFlagUsage\<close> takes them
  as parameters. \<open>Bool\<close> yields \<open>None\<close> where the Go function returns an error.
\<close>

record strutil =
  UpperFirst :: "string \<Rightarrow> string"
  SplitNTrimmed :: "string \<Rightarrow> string \<Rightarrow> nat \<Rightarrow> string list"
  Bool :: "string \<Rightarrow> bool option"
  Split :: "string \<Rightarrow> string \<Rightarrow> string list"

text \<open>
  Modelled from the spec: the helper \<^verbatim>\<open>AddPrefix\<close> of package cflag is declared outside
  the given sources. The spec's option-prefix convention writes a full option name as
  \<^verbatim>\<open>--flag\<close> and a one-letter shortcut as \<^verbatim>\<open>-f\<close>; the source applies the one helper to
  shortcuts and to full names alike, so the prefix follows from the name: two dashes for a
  name of more than one character, one dash otherwise. \<open>replaceShorts\<close> takes the helper
  as a parameter; this definition is the instance used where a claim depends on it.
\<close>

definition AddPrefix :: "string \<Rightarrow> string" where
  "AddPrefix name = (if length name > 1 then ''--'' @ name else ''-'' @ name)"

subsection \<open>Usage strings\<close>

definition updOpt :: "string \<Rightarrow> (FlagOpt \<Rightarrow> FlagOpt) \<Rightarrow> CFlags \<Rightarrow> CFlags" where
  "updOpt name fn c =
     c\<lparr>bindOpts := fmupd name (fn (case fmlookup (bindOpts c) name of None \<Rightarrow> FlagOpt0 | Some opt \<Rightarrow> opt))
                          (bindOpts c)\<rparr>"

text \<open>
  \<^verbatim>\<open>parseFlagUsage\<close> returns the new usage text, or panics inside \<^verbatim>\<open>addShortcuts\<close>. The
  option's entry is created first; \<^verbatim>\<open>opt.Shortcuts\<close> is assigned before \<^verbatim>\<open>addShortcuts\<close>
  runs.
\<close>

definition parseFlagUsage :: "strutil \<Rightarrow> string \<Rightarrow> string \<Rightarrow> CFlags \<Rightarrow> CFlags \<times> string outcome" where
  "parseFlagUsage su name usage c =
     (let c1 = updOpt name (\<lambda>opt. opt) c;
          desc = Trim usage ''; ''
      in if CHR '';'' \<notin> set desc then (c1, Return (UpperFirst su desc))
      else
        let parts = SplitNTrimmed su desc '';'' 3 in
        if length parts > 1 then
          let req = (Bool su (parts ! 1) = Some True);
              desc' = (if req then ''<red>*</>'' @ UpperFirst su (parts ! 0)
                       else UpperFirst su (parts ! 0));
              c2 = (if req then updOpt name (\<lambda>opt. opt\<lparr>optRequired := True\<rparr>) c1 else c1)
          in if length parts > 2 \<and> length (parts ! 2) > 0 then
               let shorts = Split su (parts ! 2) '','';
                   c3 = updOpt name (\<lambda>opt. opt\<lparr>optShortcuts := shorts\<rparr>) c2
               in (case addShortcuts name shorts c3 of
                     (c4, Some p) \<Rightarrow> (c4, Panic p)
                   | (c4, None) \<Rightarrow> (c4, Return desc'))
             else (c2, Return desc')
        else (c1, Return desc))"

text \<open>
  \<^verbatim>\<open>prepare\<close>: \<^verbatim>\<open>VisitAll\<close> calls the function on every declared flag; \<open>names\<close> is the list
  of the flag names in the order of that visit.
\<close>

definition setUsage :: "string \<Rightarrow> string \<Rightarrow> CFlags \<Rightarrow> CFlags" where
  "setUsage name u c =
     (case fmlookup (formal (flagSet c)) name of
        None \<Rightarrow> c
      | Some f \<Rightarrow> c\<lparr>flagSet := (flagSet c)\<lparr>formal := fmupd name (f\<lparr>Usage := u\<rparr>) (formal (flagSet c))\<rparr>\<rparr>)"

fun prepare :: "strutil \<Rightarrow> string list \<Rightarrow> CFlags \<Rightarrow> CFlags \<times> panic option" where
  "prepare su [] c = (c, None)"
| "prepare su (fname # names) c =
     (case fmlookup (formal (flagSet c)) fname of
        None \<Rightarrow> prepare su names c
      | Some f \<Rightarrow>
          (case fmlookup (shortcuts c) fname of
             Some regName \<Rightarrow> (c, Some (NameIsShortcut fname regName))
           | None \<Rightarrow>
               (case parseFlagUsage su fname (Usage f) c of
                  (c', Panic p) \<Rightarrow> (c', Some p)
                | (c', Return u) \<Rightarrow> prepare su names (setUsage fname u c'))))"

subsection \<open>Shortcut substitution\<close>

text \<open>
  The inner loop of \<^verbatim>\<open>replaceShorts\<close> ranges over the shortcut table (\<open>ks\<close> is the order of
  this visit) and stops at the first shortcut whose prefixed form is the token.
\<close>

fun findShort :: "(string \<Rightarrow> string) \<Rightarrow> (string, string) fmap \<Rightarrow> string list \<Rightarrow> string \<Rightarrow> string option" where
  "findShort ap sc [] arg = None"
| "findShort ap sc (short # ks) arg =
     (case fmlookup sc short of
        None \<Rightarrow> findShort ap sc ks arg
      | Some name \<Rightarrow> if arg = ap short then Some (ap name) else findShort ap sc ks arg)"

text \<open>
  The outer loop, from token number \<open>i\<close> on; \<open>vis i\<close> is the order in which the table is
  visited for token \<open>i\<close>. At the token \<^verbatim>\<open>--\<close> the rest \<^verbatim>\<open>args[i:]\<close> is appended and the loop
  ends.
\<close>

fun replaceShorts_from ::
  "(string \<Rightarrow> string) \<Rightarrow> (string, string) fmap \<Rightarrow> (nat \<Rightarrow> string list) \<Rightarrow> nat \<Rightarrow> string list
     \<Rightarrow> string list"
where
  "replaceShorts_from ap sc vis i [] = []"
| "replaceShorts_from ap sc vis i (arg # rest) =
     (if arg = [] \<or> hd arg \<noteq> CHR ''-'' then arg # replaceShorts_from ap sc vis (Suc i) rest
      else if arg = ''--'' then arg # rest
      else (case findShort ap sc (vis i) arg of
              Some full \<Rightarrow> full
            | None \<Rightarrow> arg) # replaceShorts_from ap sc vis (Suc i) rest)"

definition replaceShorts :: "(string \<Rightarrow> string) \<Rightarrow> (nat \<Rightarrow> string list) \<Rightarrow> CFlags \<Rightarrow> string list \<Rightarrow> string list" where
  "replaceShorts ap vis c args = replaceShorts_from ap (shortcuts c) vis 0 args"

subsection \<open>Checking options, binding arguments\<close>

text \<open>
  \<^verbatim>\<open>checkBindOpts\<close> ranges over \<^verbatim>\<open>bindOpts\<close> (\<open>ks\<close> is the order of the visit) and returns at
  the first option that is required and empty or that its validator rejects.
\<close>

fun checkBindOpts_loop :: "FlagSet \<Rightarrow> (string, FlagOpt) fmap \<Rightarrow> string list \<Rightarrow> error option outcome" where
  "checkBindOpts_loop fs opts [] = Return None"
| "checkBindOpts_loop fs opts (name # ks) =
     (case fmlookup opts name of
        None \<Rightarrow> checkBindOpts_loop fs opts ks
      | Some opt \<Rightarrow>
          (case fmlookup (formal fs) name of
             None \<Rightarrow> Panic (NilFlag name)
           | Some f \<Rightarrow>
               if optRequired opt \<and> Value f = [] then Return (Some (OptRequired name))
               else (case optValidator opt of
                       None \<Rightarrow> checkBindOpts_loop fs opts ks
                     | Some validator \<Rightarrow>
                         (case Getter f of
                            None \<Rightarrow> checkBindOpts_loop fs opts ks
                          | Some v \<Rightarrow>
                              (case validator v of
                                 Some msg \<Rightarrow> Return (Some (OptInvalid name msg))
                               | None \<Rightarrow> checkBindOpts_loop fs opts ks)))))"

definition checkBindOpts :: "string list \<Rightarrow> CFlags \<Rightarrow> error option outcome" where
  "checkBindOpts ks c = checkBindOpts_loop (flagSet c) (bindOpts c) ks"

text \<open>
  The loop of \<^verbatim>\<open>bindParsedArgs\<close> over \<^verbatim>\<open>bindArgs\<close> (\<open>ks\<close> is the order of the visit): it
  returns the arguments with the values assigned so far, \<^verbatim>\<open>lastIdx\<close>, and the error if
  one is returned. \<^verbatim>\<open>argN\<close> is \<^verbatim>\<open>len(args) - 1\<close>, which is \<open>-1\<close> for no tokens.
\<close>

fun bindParsedArgs_loop ::
  "string list \<Rightarrow> string list \<Rightarrow> (string, FlagArg) fmap \<Rightarrow> nat
     \<Rightarrow> (string, FlagArg) fmap \<times> nat \<times> error option"
where
  "bindParsedArgs_loop args [] m lastIdx = (m, lastIdx, None)"
| "bindParsedArgs_loop args (name # ks) m lastIdx =
     (case fmlookup m name of
        None \<Rightarrow> bindParsedArgs_loop args ks m lastIdx
      | Some arg \<Rightarrow>
          if int (Index arg) > int (length args) - 1 then
            (if Required arg then (m, lastIdx, Some (ArgRequired name (Index arg)))
             else (m, lastIdx, None))
          else
            let val = args ! Index arg in
            if Required arg \<and> val = [] then
              (m, Suc lastIdx, Some (ArgRequired name (Index arg)))
            else bindParsedArgs_loop args ks (fmupd name (arg\<lparr>V := VStr val\<rparr>) m) (Suc lastIdx))"

definition bindParsedArgs :: "string list \<Rightarrow> CFlags \<Rightarrow> CFlags \<times> error option" where
  "bindParsedArgs ks c =
     (let args = Args (flagSet c);
          argN = int (length args) - 1
      in case bindParsedArgs_loop args ks (bindArgs c) 0 of
           (m, lastIdx, Some e) \<Rightarrow> (c\<lparr>bindArgs := m\<rparr>, Some e)
         | (m, lastIdx, None) \<Rightarrow>
             (if int lastIdx < argN
              then c\<lparr>bindArgs := m, remainArgs := drop lastIdx args\<rparr>
              else c\<lparr>bindArgs := m\<rparr>, None))"

definition RemainArgs :: "CFlags \<Rightarrow> string list" where
  "RemainArgs c = remainArgs c"

subsection \<open>Parse\<close>

text \<open>
  The orders in which one call of \<^verbatim>\<open>Parse\<close> visits the three maps: the shortcut table
  once for each token that starts with a dash, the options, the arguments.
\<close>

record order =
  shortsOrder :: "nat \<Rightarrow> string list"
  optsOrder :: "string list"
  argsOrder :: "string list"

text \<open>
  \<^verbatim>\<open>doParse\<close>. The method \<^verbatim>\<open>FlagSet.Parse\<close> of the standard library is the parameter
  \<open>parse\<close>: from the flag set and the tokens it yields the flag set after parsing and the
  error, if any.
\<close>

definition doParse ::
  "(string \<Rightarrow> string) \<Rightarrow> (FlagSet \<Rightarrow> string list \<Rightarrow> FlagSet \<times> error option) \<Rightarrow> order
     \<Rightarrow> CFlags \<Rightarrow> string list \<Rightarrow> CFlags \<times> error option outcome"
where
  "doParse ap parse ord c args0 =
     (let args = (if fmdom (shortcuts c) \<noteq> {||} \<and> length args0 > 0
                  then replaceShorts ap (shortsOrder ord) c args0 else args0)
      in case parse (flagSet c) args of
           (fs, Some e) \<Rightarrow> (c\<lparr>flagSet := fs\<rparr>, Return (Some e))
         | (fs, None) \<Rightarrow>
             (let c1 = c\<lparr>flagSet := fs\<rparr> in
              case checkBindOpts (optsOrder ord) c1 of
                Panic p \<Rightarrow> (c1, Panic p)
              | Return (Some e) \<Rightarrow> (c1, Return (Some e))
              | Return None \<Rightarrow>
                  (case bindParsedArgs (argsOrder ord) c1 of (c2, e) \<Rightarrow> (c2, Return e))))"

text \<open>
  \<^verbatim>\<open>Parse\<close>. A nil slice is \<open>None\<close>, a non-nil one \<open>Some args\<close>; \<open>osArgs\<close> is \<^verbatim>\<open>os.Args\<close>.
  The slice expression \<^verbatim>\<open>os.Args[1:]\<close> runs before the deferred \<^verbatim>\<open>recover\<close> is installed.
  Every later panic is recovered: the function then returns the zero value of its
  unnamed result, nil. \<open>func\<close> is the handler \<^verbatim>\<open>c.Func\<close>.
\<close>

definition Parse ::
  "strutil \<Rightarrow> (string \<Rightarrow> string) \<Rightarrow> (FlagSet \<Rightarrow> string list \<Rightarrow> FlagSet \<times> error option)
     \<Rightarrow> (CFlags \<Rightarrow> CFlags \<times> error option outcome) option \<Rightarrow> string list \<Rightarrow> order
     \<Rightarrow> string list \<Rightarrow> CFlags \<Rightarrow> string list option \<Rightarrow> CFlags \<times> error option outcome"
where
  "Parse su ap parse func names ord osArgs c args0 =
     (case (case args0 of
              None \<Rightarrow> if osArgs = [] then None else Some (tl osArgs)
            | Some a \<Rightarrow> Some a) of
        None \<Rightarrow> (c, Panic SliceBounds)
      | Some args \<Rightarrow>
          (case prepare su names c of
             (c1, Some p) \<Rightarrow> (c1, Return None)
           | (c1, None) \<Rightarrow>
               (case doParse ap parse ord c1 args of
                  (c2, Panic p) \<Rightarrow> (c2, Return None)
                | (c2, Return (Some e)) \<Rightarrow> (c2, Return (if e = ErrHelp then None else Some e))
                | (c2, Return None) \<Rightarrow>
                    (case func of
                       None \<Rightarrow> (c2, Return None)
                     | Some f \<Rightarrow>
                         (case f c2 of
                            (c3, Panic p) \<Rightarrow> (c3, Return None)
                          | (c3, Return e) \<Rightarrow> (c3, Return e))))))"

subsection \<open>Stand-ins for evaluation\<close>

text \<open>
  The theorems below hold for every flag engine and for every implementation of the
  string helpers. To evaluate the binder on concrete command lines, this subsection gives
  one engine and one set of helpers.

  \<open>flagParse\<close> follows \<^verbatim>\<open>FlagSet.Parse\<close> of the standard library with the error handling
  \<^verbatim>\<open>ContinueOnError\<close> that \<^verbatim>\<open>New\<close> selects, for flags declared with \<^verbatim>\<open>StringVar\<close> or
  \<^verbatim>\<open>BoolVar\<close>: a token shorter than two characters or without a leading dash ends the
  flags, as does the token \<^verbatim>\<open>--\<close>, which is dropped; one or two dashes are equivalent;
  \<^verbatim>\<open>name=value\<close> carries the value inline; a flag that is not boolean takes the next token
  as its value; an undeclared \<^verbatim>\<open>help\<close> or \<^verbatim>\<open>h\<close> yields \<^verbatim>\<open>ErrHelp\<close>.
\<close>

definition parseBool :: "string \<Rightarrow> bool option" where
  "parseBool s =
     (if s \<in> set [''1'', ''t'', ''T'', ''TRUE'', ''true'', ''True''] then Some True
      else if s \<in> set [''0'', ''f'', ''F'', ''FALSE'', ''false'', ''False''] then Some False
      else None)"

definition setFlag :: "Flag \<Rightarrow> string \<Rightarrow> Flag option" where
  "setFlag f v =
     (if IsBoolFlag f then
        (case parseBool v of
           None \<Rightarrow> None
         | Some b \<Rightarrow> Some (f\<lparr>Value := (if b then ''true'' else ''false''), Getter := Some (VBool b)\<rparr>))
      else Some (f\<lparr>Value := v, Getter := Some (VStr v)\<rparr>))"

fun flagParse_loop ::
  "(string, Flag) fmap \<Rightarrow> string list \<Rightarrow> (string, Flag) fmap \<times> string list \<times> error option"
where
  "flagParse_loop fm [] = (fm, [], None)"
| "flagParse_loop fm (s # rest) =
     (if length s < 2 \<or> hd s \<noteq> CHR ''-'' then (fm, s # rest, None)
      else if s = ''--'' then (fm, rest, None)
      else
        let name0 = drop (if s ! 1 = CHR ''-'' then 2 else 1) s in
        if name0 = [] \<or> hd name0 = CHR ''-'' \<or> hd name0 = CHR ''='' then
          (fm, s # rest, Some (FlagError (''bad flag syntax: '' @ s)))
        else
          let name = takeWhile (\<lambda>ch. ch \<noteq> CHR ''='') name0;
              inline = (if CHR ''='' \<in> set name0
                        then Some (tl (dropWhile (\<lambda>ch. ch \<noteq> CHR ''='') name0)) else None)
          in case fmlookup fm name of
               None \<Rightarrow>
                 if name = ''help'' \<or> name = ''h'' then (fm, rest, Some ErrHelp)
                 else (fm, rest, Some (FlagError (''flag provided but not defined: -'' @ name)))
             | Some f \<Rightarrow>
                 (case (if IsBoolFlag f \<and> inline = None then Some ''true'' else inline) of
                    Some v \<Rightarrow>
                      (case setFlag f v of
                         None \<Rightarrow> (fm, rest, Some (FlagError (''invalid value for flag -'' @ name)))
                       | Some f' \<Rightarrow> flagParse_loop (fmupd name f' fm) rest)
                  | None \<Rightarrow>
                      (case rest of
                         [] \<Rightarrow> (fm, [], Some (FlagError (''flag needs an argument: -'' @ name)))
                       | v # rest' \<Rightarrow>
                           (case setFlag f v of
                              None \<Rightarrow> (fm, rest', Some (FlagError (''invalid value for flag -'' @ name)))
                            | Some f' \<Rightarrow> flagParse_loop (fmupd name f' fm) rest'))))"

definition flagParse :: "FlagSet \<Rightarrow> string list \<Rightarrow> FlagSet \<times> error option" where
  "flagParse fs arguments =
     (case flagParse_loop (formal fs) arguments of
        (fm, rest, e) \<Rightarrow> (\<lparr>formal = fm, Args = rest\<rparr>, e))"

text \<open>
  Modelled from the spec: the helpers of package strutil are declared outside the given
  sources. The spec has the usage text split on \<^verbatim>\<open>;\<close> into at most 3 parts, the second
  part read as a boolean literal (true/false/1/0/etc.) and the third part as
  comma-separated shortcuts. \<open>splitN\<close> cuts at the first \<open>n - 1\<close> separators; the parts
  are trimmed of blanks; \<open>Split\<close> drops empty tokens; \<open>UpperFirst\<close> capitalises an ASCII
  letter.
\<close>

fun splitN :: "char \<Rightarrow> nat \<Rightarrow> string \<Rightarrow> string list" where
  "splitN ch 0 s = []"
| "splitN ch (Suc n) s =
     (if n = 0 \<or> ch \<notin> set s then [s]
      else takeWhile (\<lambda>x. x \<noteq> ch) s # splitN ch n (tl (dropWhile (\<lambda>x. x \<noteq> ch) s)))"

definition TrimSpace :: "string \<Rightarrow> string" where
  "TrimSpace s = Trim s [CHR '' '', CHR 0x09, CHR 0x0A, CHR 0x0D]"

definition strutilSpec :: strutil where
  "strutilSpec =
     \<lparr>UpperFirst = (\<lambda>s. case s of
                       [] \<Rightarrow> []
                     | ch # rest \<Rightarrow>
                         (if (97::nat) \<le> of_char ch \<and> of_char ch \<le> (122::nat)
                          then char_of (of_char ch - (32::nat)) else ch) # rest),
      SplitNTrimmed = (\<lambda>s sep n. if TrimSpace s = [] then []
                                 else map TrimSpace (splitN (hd sep) n (TrimSpace s))),
      Bool = (\<lambda>s. if s \<in> set [''1'', ''on'', ''yes'', ''true''] then Some True
                  else if s \<in> set [''0'', ''off'', ''no'', ''false''] then Some False
                  else None),
      Split = (\<lambda>s sep. filter (\<lambda>t. t \<noteq> [])
                 (map TrimSpace (splitN (hd sep) (Suc (length s)) (TrimSpace s))))\<rparr>"

subsection \<open>Specification of the assignment\<close>

text \<open>
  The arguments after the tokens have been assigned to the visited ones: each visited
  argument receives the token at its index. This function is not in the source; the
  lemmas on \<open>bindParsedArgs_loop\<close> compare the loop with it.
\<close>

fun assignArgs :: "string list \<Rightarrow> string list \<Rightarrow> (string, FlagArg) fmap \<Rightarrow> (string, FlagArg) fmap" where
  "assignArgs args [] m = m"
| "assignArgs args (name # ks) m =
     (case fmlookup m name of
        None \<Rightarrow> assignArgs args ks m
      | Some a \<Rightarrow> assignArgs args ks (fmupd name (a\<lparr>V := VStr (args ! Index a)\<rparr>) m))"

section \<open>Properties of Utf8Split\<close>

lemma Utf8Split_loop_concat_pos:
  assumes "\<forall>r \<in> set rs. RuneWidth kind r > 0"
    and "tmpW = 0 \<longleftrightarrow> tmpS = []" and "tmpW \<ge> 0"
  shows "concat (Utf8Split_loop kind w rs tmpW tmpS ss) = concat ss @ tmpS @ rs"
  using assms
proof (induction rs arbitrary: tmpW tmpS ss)
  case Nil
  then show ?case by (cases "tmpW > 0") auto
next
  case (Cons r rs)
  have pos: "RuneWidth kind r > 0" using Cons.prems(1) by simp
  have rest: "\<forall>x \<in> set rs. RuneWidth kind x > 0" using Cons.prems(1) by simp
  show ?case
  proof (cases "tmpW + RuneWidth kind r = w")
    case True
    then show ?thesis using Cons.IH [OF rest, of 0 "[]"] by (simp add: Let_def)
  next
    case False
    note ne = this
    show ?thesis
    proof (cases "tmpW + RuneWidth kind r > w")
      case True
      have "concat (Utf8Split_loop kind w rs (RuneWidth kind r) [r] (ss @ [tmpS]))
            = concat (ss @ [tmpS]) @ [r] @ rs"
        using pos by (intro Cons.IH [OF rest]) auto
      then show ?thesis using ne True by (simp add: Let_def)
    next
      case False
      have "concat (Utf8Split_loop kind w rs (tmpW + RuneWidth kind r) (tmpS @ [r]) ss)
            = concat ss @ (tmpS @ [r]) @ rs"
        using pos Cons.prems(3) by (intro Cons.IH [OF rest]) auto
      then show ?thesis using ne False by (simp add: Let_def)
    qed
  qed
qed

lemma Utf8Split_concat_pos:
  "\<forall>r \<in> set s. RuneWidth kind r > 0 \<Longrightarrow> concat (Utf8Split kind s w) = s"
  by (simp add: Utf8Split_def Utf8Split_loop_concat_pos)

text \<open>
  Claim C10: for every string and width, the chunks of \<open>Utf8Split\<close> concatenate to the
  string. The code emits the pending chunk only when its width is positive, so zero-width
  runes after the last full chunk are lost: splitting \<^verbatim>\<open>"ab\n"\<close> at width 1 returns
  \<^verbatim>\<open>["a", "b"]\<close>, whose concatenation is \<^verbatim>\<open>"ab"\<close>.
\<close>

theorem Utf8Split_drops_trailing_zero_width:
  "Utf8Split asciiKind [97, 98, 10] 1 = [[97], [98]]
   \<and> concat (Utf8Split asciiKind [97, 98, 10] 1) \<noteq> [97, 98, 10]"
  by (simp add: Utf8Split_def RuneWidth_def asciiKind_def Let_def)

section \<open>Properties of registration\<close>

subsection \<open>Argument indices\<close>

lemma BindArg_None:
  assumes "snd (BindArg check a c) = None"
  shows "bindArgs (fst (BindArg check a c))
           = fmupd (Name a) (a\<lparr>Index := fcard (fmdom (bindArgs c))\<rparr>) (bindArgs c)"
    and "fmlookup (bindArgs c) (Name a) = None"
  using assms by (auto simp: BindArg_def Let_def split: option.splits if_splits)

text \<open>
  A run of successful \<open>BindArg\<close> calls on a binder that holds \<open>n\<close> arguments gives the
  \<open>i\<close>-th new argument the index \<open>n + i\<close>, adds exactly the new names, and keeps the old
  entries.
\<close>

lemma BindArgs_indices:
  assumes "snd (BindArgs check as c) = None"
  shows "(\<forall>i<length as.
            map_option Index (fmlookup (bindArgs (fst (BindArgs check as c))) (Name (as ! i)))
              = Some (fcard (fmdom (bindArgs c)) + i))
         \<and> fmdom (bindArgs (fst (BindArgs check as c)))
              = fmdom (bindArgs c) |\<union>| fset_of_list (map Name as)
         \<and> (\<forall>k b. fmlookup (bindArgs c) k = Some b
               \<longrightarrow> fmlookup (bindArgs (fst (BindArgs check as c))) k = Some b)"
  using assms
proof (induction as arbitrary: c)
  case Nil
  then show ?case by simp
next
  case (Cons a as)
  obtain c' p where b: "BindArg check a c = (c', p)" by (cases "BindArg check a c")
  from Cons.prems b have p: "p = None" by (cases p) auto
  have ba: "snd (BindArg check a c) = None" using b p by simp
  have upd: "bindArgs c' = fmupd (Name a) (a\<lparr>Index := fcard (fmdom (bindArgs c))\<rparr>) (bindArgs c)"
    and fresh: "fmlookup (bindArgs c) (Name a) = None"
    using BindArg_None [OF ba] b by simp_all
  have rest: "snd (BindArgs check as c') = None" using Cons.prems b p by simp
  have eq: "BindArgs check (a # as) c = BindArgs check as c'" using b p by simp
  have notin: "Name a |\<notin>| fmdom (bindArgs c)" using fresh by (simp add: fmdom_notI)
  have card: "fcard (fmdom (bindArgs c')) = Suc (fcard (fmdom (bindArgs c)))"
    using notin by (simp add: upd fcard_finsert_disjoint)
  note IH = Cons.IH [OF rest]
  have here: "fmlookup (bindArgs c') (Name a) = Some (a\<lparr>Index := fcard (fmdom (bindArgs c))\<rparr>)"
    by (simp add: upd)
  have keep: "fmlookup (bindArgs (fst (BindArgs check as c'))) (Name a)
        = Some (a\<lparr>Index := fcard (fmdom (bindArgs c))\<rparr>)"
    using IH here by blast
  show ?case unfolding eq
  proof (intro conjI allI impI)
    fix i assume "i < length (a # as)"
    show "map_option Index (fmlookup (bindArgs (fst (BindArgs check as c'))) (Name ((a # as) ! i)))
          = Some (fcard (fmdom (bindArgs c)) + i)"
    proof (cases i)
      case 0
      then show ?thesis using keep by simp
    next
      case (Suc j)
      then have "j < length as" using \<open>i < length (a # as)\<close> by simp
      then show ?thesis using IH Suc card by simp
    qed
  next
    show "fmdom (bindArgs (fst (BindArgs check as c')))
          = fmdom (bindArgs c) |\<union>| fset_of_list (map Name (a # as))"
      using IH by (auto simp: upd)
  next
    fix k b assume "fmlookup (bindArgs c) k = Some b"
    then have "fmlookup (bindArgs c') k = Some b" using fresh by (auto simp: upd)
    then show "fmlookup (bindArgs (fst (BindArgs check as c'))) k = Some b" using IH by blast
  qed
qed

text \<open>
  Claim C6: after any sequence of successful argument-binding calls on a binder, the
  indices of the bound arguments are exactly 0, 1, 2, ... in call order. For a binder
  that starts without arguments (as \<open>NewEmpty\<close> makes it) and a sequence \<open>as\<close> of
  arguments whose \<open>BindArg\<close> calls all return: the indices stored under the names of
  \<open>as\<close>, in call order, are \<open>0, ..., length as - 1\<close>, and the binder holds no other argument.
\<close>

theorem BindArg_indices_dense:
  assumes "snd (BindArgs check as c0) = None" and "bindArgs c0 = fmempty"
  shows "map (\<lambda>a. map_option Index (fmlookup (bindArgs (fst (BindArgs check as c0))) (Name a))) as
           = map Some [0..<length as]
         \<and> fmdom' (bindArgs (fst (BindArgs check as c0))) = Name ` set as"
proof -
  note h = BindArgs_indices [OF assms(1)]
  have "\<forall>i<length as.
          map_option Index (fmlookup (bindArgs (fst (BindArgs check as c0))) (Name (as ! i))) = Some i"
    using h assms(2) by (simp add: fcard_fempty)
  then have 1: "map (\<lambda>a. map_option Index (fmlookup (bindArgs (fst (BindArgs check as c0))) (Name a))) as
           = map Some [0..<length as]"
    by (intro nth_equalityI) auto
  have "fmdom (bindArgs (fst (BindArgs check as c0))) = fset_of_list (map Name as)"
    using h assms(2) by simp
  then have 2: "fmdom' (bindArgs (fst (BindArgs check as c0))) = Name ` set as"
    by (simp add: fmdom'_alt_def fset_of_list.rep_eq)
  show ?thesis using 1 2 by simp
qed

theorem BindArg_indices_dense_witness:
  "snd (BindArgs (\<lambda>a. None)
     [\<lparr>Name = ''name'', Desc = ''the name'', V = VNil, Index = 0, Required = True\<rparr>,
      \<lparr>Name = ''tag'', Desc = ''the tag'', V = VStr ''latest'', Index = 7, Required = False\<rparr>]
     NewEmpty) = None
   \<and> bindArgs NewEmpty = fmempty
   \<and> map (\<lambda>a. map_option Index (fmlookup (bindArgs (fst (BindArgs (\<lambda>a. None)
     [\<lparr>Name = ''name'', Desc = ''the name'', V = VNil, Index = 0, Required = True\<rparr>,
      \<lparr>Name = ''tag'', Desc = ''the tag'', V = VStr ''latest'', Index = 7, Required = False\<rparr>]
     NewEmpty))) (Name a)))
     [\<lparr>Name = ''name'', Desc = ''the name'', V = VNil, Index = 0, Required = True\<rparr>,
      \<lparr>Name = ''tag'', Desc = ''the tag'', V = VStr ''latest'', Index = 7, Required = False\<rparr>]
     = [Some 0, Some 1]"
proof -
  let ?as = "[\<lparr>Name = ''name'', Desc = ''the name'', V = VNil, Index = 0, Required = True\<rparr>,
      \<lparr>Name = ''tag'', Desc = ''the tag'', V = VStr ''latest'', Index = 7, Required = False\<rparr>]"
  have h1: "snd (BindArgs (\<lambda>a. None) ?as NewEmpty) = None" by code_simp
  have h2: "bindArgs NewEmpty = fmempty" by (simp add: NewEmpty_def)
  have "[0..<length ?as] = [0, 1]" by (simp add: upt_rec)
  then show ?thesis using h1 h2 BindArg_indices_dense [OF h1 h2] by simp
qed

subsection \<open>Shortcuts and argument names are claimed once\<close>

lemma addShortcuts_fields:
  "flagSet (fst (addShortcuts name shorts c)) = flagSet c"
  "bindOpts (fst (addShortcuts name shorts c)) = bindOpts c"
  "bindArgs (fst (addShortcuts name shorts c)) = bindArgs c"
  "remainArgs (fst (addShortcuts name shorts c)) = remainArgs c"
  "argWidth (fst (addShortcuts name shorts c)) = argWidth c"
  by (induction shorts arbitrary: c; simp split: option.splits)+

lemma addShortcuts_keeps:
  "fmlookup (shortcuts c) s = Some owner
   \<Longrightarrow> fmlookup (shortcuts (fst (addShortcuts name shorts c))) s = Some owner"
proof (induction shorts arbitrary: c)
  case Nil
  then show ?case by simp
next
  case (Cons t shorts)
  show ?case
  proof (cases "fmlookup (shortcuts c) t")
    case None
    then have "t \<noteq> s" using Cons.prems by auto
    then have "fmlookup (shortcuts (c\<lparr>shortcuts := fmupd t name (shortcuts c)\<rparr>)) s = Some owner"
      using Cons.prems by simp
    from Cons.IH [OF this] show ?thesis using None by simp
  next
    case (Some r)
    then show ?thesis using Cons.prems by simp
  qed
qed

lemma addShortcuts_panics:
  "s \<in> set shorts \<Longrightarrow> fmlookup (shortcuts c) s = Some owner
   \<Longrightarrow> \<exists>s' r. snd (addShortcuts name shorts c) = Some (ShortcutUsed s' r) \<and> s' \<in> set shorts
         \<and> fmlookup (shortcuts (fst (addShortcuts name shorts c))) s' = Some r"
proof (induction shorts arbitrary: c)
  case Nil
  then show ?case by simp
next
  case (Cons t shorts)
  show ?case
  proof (cases "fmlookup (shortcuts c) t")
    case (Some r)
    then show ?thesis by simp
  next
    case None
    then have ne: "t \<noteq> s" using Cons.prems by auto
    then have 1: "s \<in> set shorts" using Cons.prems by simp
    have 2: "fmlookup (shortcuts (c\<lparr>shortcuts := fmupd t name (shortcuts c)\<rparr>)) s = Some owner"
      using Cons.prems ne by simp
    from Cons.IH [OF 1 2] show ?thesis using None by auto
  qed
qed

text \<open>Registration succeeds exactly on distinct tokens none of which is in the table.\<close>

lemma addShortcuts_ok:
  "distinct shorts \<Longrightarrow> \<forall>s \<in> set shorts. fmlookup (shortcuts c) s = None
   \<Longrightarrow> snd (addShortcuts name shorts c) = None
       \<and> (\<forall>s. fmlookup (shortcuts (fst (addShortcuts name shorts c))) s
               = (if s \<in> set shorts then Some name else fmlookup (shortcuts c) s))"
proof (induction shorts arbitrary: c)
  case Nil
  then show ?case by simp
next
  case (Cons t shorts)
  let ?c = "c\<lparr>shortcuts := fmupd t name (shortcuts c)\<rparr>"
  have t: "fmlookup (shortcuts c) t = None" using Cons.prems by simp
  have 1: "distinct shorts" and tn: "t \<notin> set shorts" using Cons.prems by simp_all
  have 2: "\<forall>s \<in> set shorts. fmlookup (shortcuts ?c) s = None"
    using Cons.prems by auto
  from Cons.IH [OF 1 2] show ?case using t tn by auto
qed

text \<open>
  Claim C7: registering a shortcut token that another option has claimed panics and
  leaves the token with its owner; binding an argument under a name that is already bound
  panics; so a shortcut key keeps its one option name. For \<open>addShortcuts\<close>: an entry of
  the table survives every call, whether the call returns or panics; a call whose tokens
  include a claimed one panics with the message that names a token of the call and its
  owner; registering the claimed token alone names that token and its owner and leaves
  the binder as it was. For \<open>BindArg\<close>: a bound name makes the call panic and leaves
  the binder as it was.
\<close>

theorem duplicate_registration_panics:
  "(fmlookup (shortcuts c) s = Some owner \<longrightarrow>
      fmlookup (shortcuts (fst (addShortcuts name shorts c))) s = Some owner
      \<and> (s \<in> set shorts \<longrightarrow>
           (\<exists>s' r. snd (addShortcuts name shorts c) = Some (ShortcutUsed s' r) \<and> s' \<in> set shorts
              \<and> fmlookup (shortcuts (fst (addShortcuts name shorts c))) s' = Some r))
      \<and> addShortcuts name [s] c = (c, Some (ShortcutUsed s owner)))
   \<and> (fmlookup (bindArgs c) (Name arg) \<noteq> None \<longrightarrow>
        (\<exists>p. snd (BindArg check arg c) = Some p) \<and> fst (BindArg check arg c) = c)"
proof (intro conjI impI)
  assume "fmlookup (shortcuts c) s = Some owner"
  then show "fmlookup (shortcuts (fst (addShortcuts name shorts c))) s = Some owner"
    by (rule addShortcuts_keeps)
next
  assume "fmlookup (shortcuts c) s = Some owner" and "s \<in> set shorts"
  then show "\<exists>s' r. snd (addShortcuts name shorts c) = Some (ShortcutUsed s' r) \<and> s' \<in> set shorts
              \<and> fmlookup (shortcuts (fst (addShortcuts name shorts c))) s' = Some r"
    by (intro addShortcuts_panics)
next
  assume "fmlookup (shortcuts c) s = Some owner"
  then show "addShortcuts name [s] c = (c, Some (ShortcutUsed s owner))" by simp
next
  assume "fmlookup (bindArgs c) (Name arg) \<noteq> None"
  then show "\<exists>p. snd (BindArg check arg c) = Some p"
    by (auto simp: BindArg_def Let_def split: option.splits)
next
  assume "fmlookup (bindArgs c) (Name arg) \<noteq> None"
  then show "fst (BindArg check arg c) = c"
    by (auto simp: BindArg_def Let_def split: option.splits)
qed

theorem duplicate_registration_panics_witness:
  "fmlookup (shortcuts (fst (addShortcuts ''age'' [''a''] NewEmpty))) ''a'' = Some ''age''
   \<and> ''a'' \<in> set [''n'', ''a'', ''m'']
   \<and> fmlookup (bindArgs (fst (BindArg (\<lambda>a. None)
        \<lparr>Name = ''file'', Desc = [], V = VNil, Index = 0, Required = True\<rparr> NewEmpty))) ''file'' \<noteq> None
   \<and> fmlookup (shortcuts (fst (addShortcuts ''name'' [''n'', ''a'', ''m'']
        (fst (addShortcuts ''age'' [''a''] NewEmpty))))) ''a'' = Some ''age''
   \<and> snd (addShortcuts ''name'' [''n'', ''a'', ''m''] (fst (addShortcuts ''age'' [''a''] NewEmpty)))
       = Some (ShortcutUsed ''a'' ''age'')
   \<and> snd (BindArg (\<lambda>a. None) \<lparr>Name = ''file'', Desc = ''again'', V = VNil, Index = 0, Required = False\<rparr>
        (fst (BindArg (\<lambda>a. None)
           \<lparr>Name = ''file'', Desc = [], V = VNil, Index = 0, Required = True\<rparr> NewEmpty)))
       = Some (ArgRegistered ''file'')"
proof -
  let ?c = "fst (addShortcuts ''age'' [''a''] NewEmpty)"
  let ?a = "\<lparr>Name = ''file'', Desc = ''again'', V = VNil, Index = 0, Required = False\<rparr>"
  let ?b = "fst (BindArg (\<lambda>a. None) \<lparr>Name = ''file'', Desc = [], V = VNil, Index = 0, Required = True\<rparr> NewEmpty)"
  have h1: "fmlookup (shortcuts ?c) ''a'' = Some ''age''" by (simp add: NewEmpty_def)
  have h2: "''a'' \<in> set [''n'', ''a'', ''m'']" by simp
  have h3: "fmlookup (bindArgs ?b) (Name ?a) \<noteq> None"
    by (simp add: BindArg_def NewEmpty_def Let_def)
  have e1: "snd (addShortcuts ''name'' [''n'', ''a'', ''m''] ?c) = Some (ShortcutUsed ''a'' ''age'')"
    by (simp add: NewEmpty_def)
  have e2: "snd (BindArg (\<lambda>a. None) ?a ?b) = Some (ArgRegistered ''file'')"
    by (simp add: BindArg_def NewEmpty_def Let_def)
  note t1 = duplicate_registration_panics
    [where c = ?c and s = "''a''" and owner = "''age''" and name = "''name''"
       and shorts = "[''n'', ''a'', ''m'']"]
  note t2 = duplicate_registration_panics [where c = ?b and arg = ?a and check = "\<lambda>a. None"]
  have k: "fmlookup (shortcuts (fst (addShortcuts ''name'' [''n'', ''a'', ''m''] ?c))) ''a'' = Some ''age''"
    using t1 h1 by blast
  have "\<exists>p. snd (BindArg (\<lambda>a. None) ?a ?b) = Some p" using t2 h3 by blast
  then show ?thesis using h1 h2 h3 e1 e2 k by simp
qed

section \<open>Properties of shortcut substitution\<close>

lemma replaceShorts_from_length:
  "length (replaceShorts_from ap sc vis k args) = length args"
  by (induction args arbitrary: k) auto

lemma replaceShorts_from_after_dashes:
  "j < length args \<Longrightarrow> args ! j = ''--'' \<Longrightarrow> j \<le> i
   \<Longrightarrow> replaceShorts_from ap sc vis k args ! i = args ! i"
proof (induction args arbitrary: i j k)
  case Nil
  then show ?case by simp
next
  case (Cons arg rest)
  show ?case
  proof (cases "arg = ''--''")
    case True
    then show ?thesis by simp
  next
    case False
    then obtain j' where j: "j = Suc j'" using Cons.prems(1,2) by (cases j) auto
    then obtain i' where i: "i = Suc i'" using Cons.prems(3) by (cases i) auto
    have "replaceShorts_from ap sc vis (Suc k) rest ! i' = rest ! i'"
      using Cons.prems i j by (intro Cons.IH [of j']) auto
    then show ?thesis using False i by simp
  qed
qed

text \<open>The pass rewrites the tokens before the first \<^verbatim>\<open>--\<close> and copies the rest.\<close>

lemma replaceShorts_from_split:
  "replaceShorts_from ap sc vis k args
     = replaceShorts_from ap sc vis k (takeWhile (\<lambda>a. a \<noteq> ''--'') args)
       @ dropWhile (\<lambda>a. a \<noteq> ''--'') args"
  by (induction args arbitrary: k) auto

text \<open>
  Claim C4: for every input argument list, every token after the first literal \<^verbatim>\<open>--\<close>
  leaves the substitution pass unchanged. The pass keeps the number of tokens, and the
  token at every position \<open>i\<close> at or after a position \<open>j\<close> that holds \<^verbatim>\<open>--\<close> is the input
  token; this holds for every prefix helper, every shortcut table and every order of
  visiting it.
\<close>

theorem replaceShorts_after_dashes_unchanged:
  assumes "j < length args" and "args ! j = ''--''" and "j \<le> i"
  shows "length (replaceShorts ap vis c args) = length args
         \<and> replaceShorts ap vis c args ! i = args ! i"
  using assms
  by (simp add: replaceShorts_def replaceShorts_from_length replaceShorts_from_after_dashes)

theorem replaceShorts_after_dashes_unchanged_witness:
  "(1::nat) < length [''-n'', ''--'', ''-n'', ''x''] \<and> [''-n'', ''--'', ''-n'', ''x''] ! 1 = ''--''
   \<and> (1::nat) \<le> 2
   \<and> replaceShorts AddPrefix (\<lambda>i. [''n''])
        (fst (addShortcuts ''name'' [''n''] NewEmpty)) [''-n'', ''--'', ''-n'', ''x'']
       = [''--name'', ''--'', ''-n'', ''x'']
   \<and> replaceShorts AddPrefix (\<lambda>i. [''n''])
        (fst (addShortcuts ''name'' [''n''] NewEmpty)) [''-n'', ''--'', ''-n'', ''x''] ! 2 = ''-n''"
proof -
  let ?args = "[''-n'', ''--'', ''-n'', ''x'']"
  have h1: "(1::nat) < length ?args" by simp
  have h2: "?args ! 1 = ''--''" by simp
  have h3: "(1::nat) \<le> 2" by simp
  have e: "replaceShorts AddPrefix (\<lambda>i. [''n'']) (fst (addShortcuts ''name'' [''n''] NewEmpty)) ?args
           = [''--name'', ''--'', ''-n'', ''x'']"
    by code_simp
  from replaceShorts_after_dashes_unchanged [OF h1 h2 h3,
      of AddPrefix "\<lambda>i. [''n'']" "fst (addShortcuts ''name'' [''n''] NewEmpty)"]
  show ?thesis using e by simp
qed

subsection \<open>A shortcut and the full name\<close>

lemma AddPrefix_short_iff:
  "length s \<le> 1 \<Longrightarrow> AddPrefix t = ''-'' @ s \<longleftrightarrow> t = s"
  by (cases t; cases s) (auto simp: AddPrefix_def)

lemma AddPrefix_full_iff:
  "name \<noteq> [] \<Longrightarrow> AddPrefix t = ''--'' @ name \<longleftrightarrow> t = name \<and> length name > 1"
  by (cases t; cases name) (auto simp: AddPrefix_def)

lemma findShort_hit:
  "fmlookup sc s = Some name \<Longrightarrow> s \<in> set ks \<Longrightarrow> length s \<le> 1
   \<Longrightarrow> findShort AddPrefix sc ks (''-'' @ s) = Some (AddPrefix name)"
proof (induction ks)
  case Nil
  then show ?case by simp
next
  case (Cons t ks)
  have iff: "(''-'' @ s = AddPrefix t) = (t = s)"
    using AddPrefix_short_iff [OF Cons.prems(3), of t] by metis
  show ?case
  proof (cases "t = s")
    case True
    then show ?thesis using Cons.prems(1) iff by simp
  next
    case False
    then have "s \<in> set ks" using Cons.prems(2) by simp
    then have "findShort AddPrefix sc ks (''-'' @ s) = Some (AddPrefix name)"
      using Cons.IH Cons.prems by simp
    then show ?thesis using False iff by (simp split: option.splits)
  qed
qed

lemma findShort_miss:
  "fmlookup sc name = None \<Longrightarrow> name \<noteq> []
   \<Longrightarrow> findShort AddPrefix sc ks (''--'' @ name) = None"
proof (induction ks)
  case Nil
  then show ?case by simp
next
  case (Cons t ks)
  have "''--'' @ name = AddPrefix t \<Longrightarrow> t = name"
    using AddPrefix_full_iff [OF Cons.prems(2), of t] by metis
  then show ?case using Cons by (auto split: option.splits)
qed

text \<open>What the pass makes of the two command lines.\<close>

lemma replaceShorts_shortcut:
  assumes "fmlookup sc s = Some name" and "s \<in> set (vis 0)" and "length s \<le> 1" and "s \<noteq> ''-''"
  shows "replaceShorts_from AddPrefix sc vis 0 [''-'' @ s, v]
         = AddPrefix name # replaceShorts_from AddPrefix sc vis (Suc 0) [v]"
proof -
  have "''-'' @ s \<noteq> ''--''" using assms(4) by auto
  then show ?thesis using findShort_hit [OF assms(1,2,3)] by simp
qed

lemma replaceShorts_full_name:
  assumes "fmlookup sc name = None" and "name \<noteq> []"
  shows "replaceShorts_from AddPrefix sc vis 0 [''--'' @ name, v]
         = (''--'' @ name) # replaceShorts_from AddPrefix sc vis (Suc 0) [v]"
proof -
  have "''--'' @ name \<noteq> ''--''" using assms(2) by auto
  then show ?thesis using findShort_miss [OF assms] by simp
qed

text \<open>
  Claim C3: for every option with a registered shortcut, parsing \<^verbatim>\<open>-<shortcut> value\<close>
  yields the same option values and the same error as parsing \<^verbatim>\<open>--<fullname> value\<close>.
  With the prefix convention the pass compares the token with \<open>AddPrefix shortcut\<close>, which
  is \<^verbatim>\<open>--<shortcut>\<close> for a shortcut of two or more characters: the token \<^verbatim>\<open>-ab\<close> is not
  rewritten and reaches the flag engine, which knows no option \<^verbatim>\<open>ab\<close>. In the example the
  option \<^verbatim>\<open>name\<close> has the shortcut \<^verbatim>\<open>ab\<close>; \<^verbatim>\<open>--name v\<close> and \<^verbatim>\<open>--ab v\<close> set the option,
  \<^verbatim>\<open>-ab v\<close> is an error.
\<close>

theorem long_shortcut_single_dash_counterexample:
  "snd (Parse strutilSpec AddPrefix flagParse None [''name'']
          \<lparr>shortsOrder = (\<lambda>i. [''ab'']), optsOrder = [''name''], argsOrder = []\<rparr> [''prog'']
          (fst (AddShortcuts ''name'' [''ab''] (NewEmpty\<lparr>flagSet := \<lparr>formal = fmupd ''name''
             \<lparr>Usage = ''the name'', Value = [], Getter = Some (VStr []), IsBoolFlag = False\<rparr> fmempty,
             Args = []\<rparr>\<rparr>)))
          (Some [''-ab'', ''v'']))
     = Return (Some (FlagError ''flag provided but not defined: -ab''))
   \<and> snd (Parse strutilSpec AddPrefix flagParse None [''name'']
          \<lparr>shortsOrder = (\<lambda>i. [''ab'']), optsOrder = [''name''], argsOrder = []\<rparr> [''prog'']
          (fst (AddShortcuts ''name'' [''ab''] (NewEmpty\<lparr>flagSet := \<lparr>formal = fmupd ''name''
             \<lparr>Usage = ''the name'', Value = [], Getter = Some (VStr []), IsBoolFlag = False\<rparr> fmempty,
             Args = []\<rparr>\<rparr>)))
          (Some [''--name'', ''v'']))
     = Return None
   \<and> snd (Parse strutilSpec AddPrefix flagParse None [''name'']
          \<lparr>shortsOrder = (\<lambda>i. [''ab'']), optsOrder = [''name''], argsOrder = []\<rparr> [''prog'']
          (fst (AddShortcuts ''name'' [''ab''] (NewEmpty\<lparr>flagSet := \<lparr>formal = fmupd ''name''
             \<lparr>Usage = ''the name'', Value = [], Getter = Some (VStr []), IsBoolFlag = False\<rparr> fmempty,
             Args = []\<rparr>\<rparr>)))
          (Some [''--ab'', ''v'']))
     = Return None"
  by code_simp

text \<open>
  Claim C3, amended: for a shortcut of at most one character other than \<^verbatim>\<open>-\<close>, registered
  for an option with a non-empty name that is not itself a key of the shortcut table
  (\<^verbatim>\<open>prepare\<close> panics on a declared option whose name is one), \<open>doParse\<close> returns the same
  binder and the same result for \<^verbatim>\<open>-<shortcut> value\<close> and \<^verbatim>\<open>--<fullname> value\<close>. For a
  name of more than one character the substitution pass turns both command lines into the
  same list; for a one-letter name the lists differ in \<^verbatim>\<open>-n\<close> against \<^verbatim>\<open>--n\<close>, which the
  flag engine has to read alike.
\<close>

theorem shortcut_equiv_full_name:
  assumes "fmlookup (shortcuts c) s = Some name"
    and "s \<in> set (shortsOrder ord 0)"
    and "length s \<le> 1" and "s \<noteq> ''-''"
    and "name \<noteq> []" and "fmlookup (shortcuts c) name = None"
    and "length name > 1
         \<or> (\<forall>fs rest. parse fs ((''-'' @ name) # rest) = parse fs ((''--'' @ name) # rest))"
  shows "doParse AddPrefix parse ord c [''-'' @ s, v] = doParse AddPrefix parse ord c [''--'' @ name, v]"
proof -
  let ?rest = "replaceShorts_from AddPrefix (shortcuts c) (shortsOrder ord) (Suc 0) [v]"
  have ne: "fmdom (shortcuts c) \<noteq> {||}" using assms(1) by (auto dest: fmdomI)
  have l: "replaceShorts AddPrefix (shortsOrder ord) c [''-'' @ s, v] = AddPrefix name # ?rest"
    unfolding replaceShorts_def
    using replaceShorts_shortcut [where vis = "shortsOrder ord", OF assms(1,2,3,4)] by simp
  have r: "replaceShorts AddPrefix (shortsOrder ord) c [''--'' @ name, v] = (''--'' @ name) # ?rest"
    unfolding replaceShorts_def by (rule replaceShorts_full_name [OF assms(6,5)])
  have "parse (flagSet c) (AddPrefix name # ?rest) = parse (flagSet c) ((''--'' @ name) # ?rest)"
  proof (cases "length name > 1")
    case True
    then show ?thesis by (simp add: AddPrefix_def)
  next
    case False
    then have "AddPrefix name = ''-'' @ name" by (simp add: AddPrefix_def)
    then show ?thesis using assms(7) False by simp
  qed
  then show ?thesis using ne l r by (simp add: doParse_def)
qed

theorem shortcut_equiv_full_name_witness:
  "fmlookup (shortcuts (fst (AddShortcuts ''age'' [''a''] (NewEmpty\<lparr>flagSet := \<lparr>formal = fmupd ''age''
       \<lparr>Usage = ''your age'', Value = [], Getter = Some (VStr []), IsBoolFlag = False\<rparr> fmempty,
       Args = []\<rparr>\<rparr>)))) ''a'' = Some ''age''
   \<and> doParse AddPrefix flagParse \<lparr>shortsOrder = (\<lambda>i. [''a'']), optsOrder = [''age''], argsOrder = []\<rparr>
       (fst (AddShortcuts ''age'' [''a''] (NewEmpty\<lparr>flagSet := \<lparr>formal = fmupd ''age''
          \<lparr>Usage = ''your age'', Value = [], Getter = Some (VStr []), IsBoolFlag = False\<rparr> fmempty,
          Args = []\<rparr>\<rparr>))) [''-a'', ''30'']
     = doParse AddPrefix flagParse \<lparr>shortsOrder = (\<lambda>i. [''a'']), optsOrder = [''age''], argsOrder = []\<rparr>
       (fst (AddShortcuts ''age'' [''a''] (NewEmpty\<lparr>flagSet := \<lparr>formal = fmupd ''age''
          \<lparr>Usage = ''your age'', Value = [], Getter = Some (VStr []), IsBoolFlag = False\<rparr> fmempty,
          Args = []\<rparr>\<rparr>))) [''--age'', ''30'']
   \<and> map_option Value (fmlookup (formal (flagSet (fst (
       doParse AddPrefix flagParse \<lparr>shortsOrder = (\<lambda>i. [''a'']), optsOrder = [''age''], argsOrder = []\<rparr>
       (fst (AddShortcuts ''age'' [''a''] (NewEmpty\<lparr>flagSet := \<lparr>formal = fmupd ''age''
          \<lparr>Usage = ''your age'', Value = [], Getter = Some (VStr []), IsBoolFlag = False\<rparr> fmempty,
          Args = []\<rparr>\<rparr>))) [''-a'', ''30''])))) ''age'') = Some ''30''"
proof -
  let ?c = "fst (AddShortcuts ''age'' [''a''] (NewEmpty\<lparr>flagSet := \<lparr>formal = fmupd ''age''
       \<lparr>Usage = ''your age'', Value = [], Getter = Some (VStr []), IsBoolFlag = False\<rparr> fmempty,
       Args = []\<rparr>\<rparr>))"
  let ?ord = "\<lparr>shortsOrder = (\<lambda>i. [''a'']), optsOrder = [''age''], argsOrder = []\<rparr>"
  have h1: "fmlookup (shortcuts ?c) ''a'' = Some ''age''" by code_simp
  have h2: "''a'' \<in> set (shortsOrder ?ord 0)" by simp
  have h3: "length ''a'' \<le> 1" by simp
  have h4: "''a'' \<noteq> ''-''" by simp
  have h5: "''age'' \<noteq> []" by simp
  have h6: "fmlookup (shortcuts ?c) ''age'' = None" by code_simp
  have h7: "length ''age'' > 1
     \<or> (\<forall>fs rest. flagParse fs ((''-'' @ ''age'') # rest) = flagParse fs ((''--'' @ ''age'') # rest))"
    by simp
  have e: "map_option Value (fmlookup (formal (flagSet (fst (
       doParse AddPrefix flagParse ?ord ?c [''-a'', ''30''])))) ''age'') = Some ''30''"
    by code_simp
  from shortcut_equiv_full_name [OF h1 h2 h3 h4 h5 h6 h7, of "''30''"]
  show ?thesis using h1 e by simp
qed

section \<open>Properties of the option check\<close>




text \<open>An error of \<open>doParse\<close> other than \<^verbatim>\<open>ErrHelp\<close> is the result of \<open>Parse\<close>.\<close>

lemma Parse_returns_doParse_error:
  assumes "prepare su names c = (c1, None)"
    and "doParse ap parse ord c1 args = (c2, Return (Some e))" and "e \<noteq> ErrHelp"
  shows "Parse su ap parse func names ord osArgs c (Some args) = (c2, Return (Some e))"
  using assms by (simp add: Parse_def)




section \<open>Properties of argument binding\<close>


text \<open>
  While every visited argument has a token, and a non-empty one if it is required, the
  loop assigns and counts.
\<close>

lemma bindParsedArgs_loop_assigned:
  assumes "\<forall>name \<in> set pre. \<forall>a. fmlookup m name = Some a
             \<longrightarrow> Index a < length args \<and> (Required a \<longrightarrow> args ! Index a \<noteq> [])"
  shows "bindParsedArgs_loop args (pre @ ks) m l
         = bindParsedArgs_loop args ks (assignArgs args pre m)
             (l + length (filter (\<lambda>n. fmlookup m n \<noteq> None) pre))"
  using assms
proof (induction pre arbitrary: m l)
  case Nil
  then show ?case by simp
next
  case (Cons name pre)
  show ?case
  proof (cases "fmlookup m name")
    case None
    have "\<forall>n \<in> set pre. \<forall>a. fmlookup m n = Some a
             \<longrightarrow> Index a < length args \<and> (Required a \<longrightarrow> args ! Index a \<noteq> [])"
      using Cons.prems by simp
    from Cons.IH [OF this] show ?thesis using None by simp
  next
    case (Some a)
    let ?m = "fmupd name (a\<lparr>V := VStr (args ! Index a)\<rparr>) m"
    have a: "Index a < length args" "Required a \<longrightarrow> args ! Index a \<noteq> []"
      using Cons.prems Some by auto
    have pre': "\<forall>n \<in> set pre. \<forall>b. fmlookup ?m n = Some b
             \<longrightarrow> Index b < length args \<and> (Required b \<longrightarrow> args ! Index b \<noteq> [])"
      using Cons.prems a by auto
    have same: "filter (\<lambda>n. fmlookup ?m n \<noteq> None) pre = filter (\<lambda>n. fmlookup m n \<noteq> None) pre"
      using Some by (intro filter_cong) auto
    have step: "bindParsedArgs_loop args ((name # pre) @ ks) m l
          = bindParsedArgs_loop args (pre @ ks) ?m (Suc l)"
      using Some a by (auto simp: Let_def)
    show ?thesis unfolding step Cons.IH [OF pre'] same using Some by simp
  qed
qed

lemma bindParsedArgs_loop_all:
  assumes "\<forall>name \<in> set ks. \<exists>a. fmlookup m name = Some a
             \<and> Index a < length args \<and> (Required a \<longrightarrow> args ! Index a \<noteq> [])"
  shows "bindParsedArgs_loop args ks m l = (assignArgs args ks m, l + length ks, None)"
proof -
  have 1: "\<forall>name \<in> set ks. \<forall>a. fmlookup m name = Some a
             \<longrightarrow> Index a < length args \<and> (Required a \<longrightarrow> args ! Index a \<noteq> [])"
    using assms by fastforce
  have 2: "filter (\<lambda>n. fmlookup m n \<noteq> None) ks = ks"
    using assms by (intro filter_True) auto
  show ?thesis using bindParsedArgs_loop_assigned [OF 1, of "[]" l] 2 by simp
qed

text \<open>
  When every bound argument has a token: the remainder is the tokens after the first
  \<open>length ks\<close> ones if at least two are left over, and is not written if exactly one is.
\<close>

lemma bindParsedArgs_remainder:
  assumes "\<forall>name \<in> set ks. \<exists>a. fmlookup (bindArgs c) name = Some a
             \<and> Index a < length (Args (flagSet c))
             \<and> (Required a \<longrightarrow> Args (flagSet c) ! Index a \<noteq> [])"
  shows "length ks + 2 \<le> length (Args (flagSet c)) \<Longrightarrow>
           bindParsedArgs ks c
           = (c\<lparr>bindArgs := assignArgs (Args (flagSet c)) ks (bindArgs c),
                 remainArgs := drop (length ks) (Args (flagSet c))\<rparr>, None)"
    and "length (Args (flagSet c)) \<le> length ks + 1 \<Longrightarrow>
           bindParsedArgs ks c
           = (c\<lparr>bindArgs := assignArgs (Args (flagSet c)) ks (bindArgs c)\<rparr>, None)"
  using bindParsedArgs_loop_all [OF assms, of 0]
  by (auto simp: bindParsedArgs_def Let_def)


text \<open>
  The walk ranges over a Go map, so the order of the visit need not be the index order.
  With \<^verbatim>\<open>name\<close> (required, index 0) and \<^verbatim>\<open>tag\<close> (optional, index 1) and no token, a visit
  that reaches \<^verbatim>\<open>tag\<close> first stops there without an error; the visit in index order
  reports \<^verbatim>\<open>name\<close>.
\<close>

lemma bindParsedArgs_depends_on_visit_order:
  "snd (bindParsedArgs [''tag'', ''name'']
     (fst (BindArgs (\<lambda>a. None)
        [\<lparr>Name = ''name'', Desc = [], V = VNil, Index = 0, Required = True\<rparr>,
         \<lparr>Name = ''tag'', Desc = [], V = VStr ''latest'', Index = 0, Required = False\<rparr>] NewEmpty)))
     = None
   \<and> snd (bindParsedArgs [''name'', ''tag'']
     (fst (BindArgs (\<lambda>a. None)
        [\<lparr>Name = ''name'', Desc = [], V = VNil, Index = 0, Required = True\<rparr>,
         \<lparr>Name = ''tag'', Desc = [], V = VStr ''latest'', Index = 0, Required = False\<rparr>] NewEmpty)))
     = Some (ArgRequired ''name'' 0)"
  by code_simp



text \<open>
  Claim C2: after a successful \<open>Parse\<close>, the remainder is exactly the positional tokens not
  consumed by bound arguments; with \<open>n\<close> arguments assigned and \<open>n + m\<close> tokens it holds
  the last \<open>m\<close> tokens. The code writes the remainder only if \<^verbatim>\<open>lastIdx < argN\<close>, where
  \<^verbatim>\<open>argN\<close> is \<^verbatim>\<open>len(args) - 1\<close>: one leftover token is not collected. With one bound
  argument, the tokens \<^verbatim>\<open>a b\<close> leave the remainder empty, while \<^verbatim>\<open>a b c\<close> make it \<^verbatim>\<open>b c\<close>.
\<close>

theorem single_leftover_token_not_collected:
  "snd (Parse strutilSpec AddPrefix flagParse None []
          \<lparr>shortsOrder = (\<lambda>i. []), optsOrder = [], argsOrder = [''name'']\<rparr> [''prog'']
          (fst (BindArg (\<lambda>a. None) \<lparr>Name = ''name'', Desc = [], V = VNil, Index = 0, Required = False\<rparr>
             NewEmpty))
          (Some [''a'', ''b''])) = Return None
   \<and> RemainArgs (fst (Parse strutilSpec AddPrefix flagParse None []
          \<lparr>shortsOrder = (\<lambda>i. []), optsOrder = [], argsOrder = [''name'']\<rparr> [''prog'']
          (fst (BindArg (\<lambda>a. None) \<lparr>Name = ''name'', Desc = [], V = VNil, Index = 0, Required = False\<rparr>
             NewEmpty))
          (Some [''a'', ''b'']))) = []
   \<and> map_option V (fmlookup (bindArgs (fst (Parse strutilSpec AddPrefix flagParse None []
          \<lparr>shortsOrder = (\<lambda>i. []), optsOrder = [], argsOrder = [''name'']\<rparr> [''prog'']
          (fst (BindArg (\<lambda>a. None) \<lparr>Name = ''name'', Desc = [], V = VNil, Index = 0, Required = False\<rparr>
             NewEmpty))
          (Some [''a'', ''b''])))) ''name'') = Some (VStr ''a'')
   \<and> RemainArgs (fst (Parse strutilSpec AddPrefix flagParse None []
          \<lparr>shortsOrder = (\<lambda>i. []), optsOrder = [], argsOrder = [''name'']\<rparr> [''prog'']
          (fst (BindArg (\<lambda>a. None) \<lparr>Name = ''name'', Desc = [], V = VNil, Index = 0, Required = False\<rparr>
             NewEmpty))
          (Some [''a'', ''b'', ''c'']))) = [''b'', ''c'']"
  by code_simp

section \<open>Properties of usage strings\<close>

lemma addShortcuts_cong:
  "shortcuts c1 = shortcuts c2
   \<Longrightarrow> shortcuts (fst (addShortcuts name shorts c1)) = shortcuts (fst (addShortcuts name shorts c2))
       \<and> snd (addShortcuts name shorts c1) = snd (addShortcuts name shorts c2)"
proof (induction shorts arbitrary: c1 c2)
  case Nil
  then show ?case by simp
next
  case (Cons t shorts)
  show ?case
  proof (cases "fmlookup (shortcuts c2) t")
    case None
    have "shortcuts (c1\<lparr>shortcuts := fmupd t name (shortcuts c1)\<rparr>)
          = shortcuts (c2\<lparr>shortcuts := fmupd t name (shortcuts c2)\<rparr>)"
      using Cons.prems by simp
    from Cons.IH [OF this] show ?thesis using None Cons.prems by simp
  next
    case (Some r)
    then show ?thesis using Cons.prems by simp
  qed
qed

lemma updOpt_fields:
  "shortcuts (updOpt name fn c) = shortcuts c"
  "fmlookup (bindOpts (updOpt name fn c)) name
     = Some (fn (case fmlookup (bindOpts c) name of None \<Rightarrow> FlagOpt0 | Some opt \<Rightarrow> opt))"
  by (simp_all add: updOpt_def)

text \<open>The stand-in splitter returns at most \<open>n\<close> parts.\<close>

lemma splitN_length: "length (splitN ch n s) \<le> n"
  by (induction ch n s rule: splitN.induct) auto

lemma SplitNTrimmed_spec_length: "length (SplitNTrimmed strutilSpec s sep n) \<le> n"
  using splitN_length [of "hd sep" n "TrimSpace s"] by (simp add: strutilSpec_def)

text \<open>
  Claim C8: when an option's usage text contains the mini-format, the binder splits it on
  \<^verbatim>\<open>;\<close> into at most 3 parts; if the second part parses as boolean true the option's binding
  becomes required, and if a non-empty third part is present its comma-separated tokens
  are registered as that option's shortcuts. The text, trimmed of \<^verbatim>\<open>;\<close> and blanks, holds
  a \<^verbatim>\<open>;\<close>; \<open>parts\<close> is what \<^verbatim>\<open>SplitNTrimmed\<close> returns when asked for 3 parts, and it has a
  second part. If \<^verbatim>\<open>Bool\<close> reads the second part as true, the option's entry is required
  afterwards. If there is a non-empty third part, the option's entry lists the tokens of
  \<^verbatim>\<open>Split\<close> as its shortcuts and the shortcut table is the one \<open>addShortcuts\<close> makes of
  them: when the tokens are distinct and none is claimed, the call returns and every
  token maps to the option.
\<close>

theorem parseFlagUsage_mini_format:
  assumes "CHR '';'' \<in> set (Trim usage ''; '')"
    and "parts = SplitNTrimmed su (Trim usage ''; '') '';'' 3"
    and "length parts > 1"
  shows "(Bool su (parts ! 1) = Some True \<longrightarrow>
            map_option optRequired (fmlookup (bindOpts (fst (parseFlagUsage su name usage c))) name)
              = Some True)
       \<and> (length parts > 2 \<and> parts ! 2 \<noteq> [] \<longrightarrow>
            map_option optShortcuts (fmlookup (bindOpts (fst (parseFlagUsage su name usage c))) name)
              = Some (Split su (parts ! 2) '','')
            \<and> shortcuts (fst (parseFlagUsage su name usage c))
                = shortcuts (fst (addShortcuts name (Split su (parts ! 2) '','') c))
            \<and> (distinct (Split su (parts ! 2) '','')
                \<and> (\<forall>s \<in> set (Split su (parts ! 2) '',''). fmlookup (shortcuts c) s = None) \<longrightarrow>
                  (\<exists>d. snd (parseFlagUsage su name usage c) = Return d)
                  \<and> (\<forall>s \<in> set (Split su (parts ! 2) '','').
                        fmlookup (shortcuts (fst (parseFlagUsage su name usage c))) s = Some name)))"
proof -
  let ?desc = "Trim usage ''; ''"
  let ?c1 = "updOpt name (\<lambda>opt. opt) c"
  let ?req = "Bool su (parts ! 1) = Some True"
  let ?c2 = "if ?req then updOpt name (\<lambda>opt. opt\<lparr>optRequired := True\<rparr>) ?c1 else ?c1"
  let ?shorts = "Split su (parts ! 2) '',''"
  let ?c3 = "updOpt name (\<lambda>opt. opt\<lparr>optShortcuts := ?shorts\<rparr>) ?c2"
  let ?R = "parseFlagUsage su name usage c"
  have sc3: "shortcuts ?c3 = shortcuts c" by (simp add: updOpt_fields)
  note cong = addShortcuts_cong [OF sc3, of name ?shorts]
  have no_third: "fst ?R = ?c2" if "\<not> (length parts > 2 \<and> parts ! 2 \<noteq> [])"
    using assms that by (auto simp: parseFlagUsage_def Let_def)
  have third: "fst ?R = fst (addShortcuts name ?shorts ?c3)"
      "snd ?R = (case snd (addShortcuts name ?shorts ?c3) of Some p \<Rightarrow> Panic p
                 | None \<Rightarrow> Return (if ?req then ''<red>*</>'' @ UpperFirst su (parts ! 0)
                                    else UpperFirst su (parts ! 0)))"
    if "length parts > 2 \<and> parts ! 2 \<noteq> []"
    using assms that by (auto simp: parseFlagUsage_def Let_def split: prod.splits option.splits)
  have req2: "map_option optRequired (fmlookup (bindOpts ?c2) name) = Some True" if ?req
    using that by (simp add: updOpt_fields)
  have req3: "map_option optRequired (fmlookup (bindOpts ?c3) name) = Some True" if ?req
    using that by (simp add: updOpt_fields)
  have A: "map_option optRequired (fmlookup (bindOpts (fst ?R)) name) = Some True" if r: ?req
  proof (cases "length parts > 2 \<and> parts ! 2 \<noteq> []")
    case True
    then show ?thesis using third(1) req3 [OF r] by (simp add: addShortcuts_fields)
  next
    case False
    then show ?thesis using no_third req2 [OF r] by simp
  qed
  have B: "map_option optShortcuts (fmlookup (bindOpts (fst ?R)) name) = Some ?shorts
           \<and> shortcuts (fst ?R) = shortcuts (fst (addShortcuts name ?shorts c))
           \<and> (distinct ?shorts \<and> (\<forall>s \<in> set ?shorts. fmlookup (shortcuts c) s = None) \<longrightarrow>
                  (\<exists>d. snd ?R = Return d)
                  \<and> (\<forall>s \<in> set ?shorts. fmlookup (shortcuts (fst ?R)) s = Some name))"
    if t: "length parts > 2 \<and> parts ! 2 \<noteq> []"
  proof (intro conjI impI)
    show "map_option optShortcuts (fmlookup (bindOpts (fst ?R)) name) = Some ?shorts"
      using third(1) [OF t] by (simp add: addShortcuts_fields updOpt_fields)
    show tbl: "shortcuts (fst ?R) = shortcuts (fst (addShortcuts name ?shorts c))"
      using third(1) [OF t] cong by simp
    assume fresh: "distinct ?shorts \<and> (\<forall>s \<in> set ?shorts. fmlookup (shortcuts c) s = None)"
    then have ok: "snd (addShortcuts name ?shorts c) = None"
      "\<forall>s. fmlookup (shortcuts (fst (addShortcuts name ?shorts c))) s
               = (if s \<in> set ?shorts then Some name else fmlookup (shortcuts c) s)"
      using addShortcuts_ok [of ?shorts c name] by simp_all
    show "\<exists>d. snd ?R = Return d" using third(2) [OF t] cong ok(1) by simp
    show "\<forall>s \<in> set ?shorts. fmlookup (shortcuts (fst ?R)) s = Some name"
      using tbl ok(2) by simp
  qed
  show ?thesis using A B by blast
qed

theorem parseFlagUsage_mini_format_witness:
  "CHR '';'' \<in> set (Trim ''your age;true;a,y'' ''; '')
   \<and> SplitNTrimmed strutilSpec (Trim ''your age;true;a,y'' ''; '') '';'' 3 = [''your age'', ''true'', ''a,y'']
   \<and> Bool strutilSpec ''true'' = Some True
   \<and> Split strutilSpec ''a,y'' '','' = [''a'', ''y'']
   \<and> map_option optRequired
        (fmlookup (bindOpts (fst (parseFlagUsage strutilSpec ''age'' ''your age;true;a,y'' NewEmpty))) ''age'')
       = Some True
   \<and> map_option optShortcuts
        (fmlookup (bindOpts (fst (parseFlagUsage strutilSpec ''age'' ''your age;true;a,y'' NewEmpty))) ''age'')
       = Some [''a'', ''y'']
   \<and> fmlookup (shortcuts (fst (parseFlagUsage strutilSpec ''age'' ''your age;true;a,y'' NewEmpty))) ''y''
       = Some ''age''"
proof -
  let ?u = "''your age;true;a,y''"
  let ?parts = "[''your age'', ''true'', ''a,y'']"
  have h1: "CHR '';'' \<in> set (Trim ?u ''; '')" by code_simp
  have h2: "?parts = SplitNTrimmed strutilSpec (Trim ?u ''; '') '';'' 3" by code_simp
  have h3: "length ?parts > 1" by simp
  have b: "Bool strutilSpec ''true'' = Some True" by code_simp
  have s: "Split strutilSpec ''a,y'' '','' = [''a'', ''y'']" by code_simp
  have e: "shortcuts NewEmpty = fmempty" by (simp add: NewEmpty_def)
  note t = parseFlagUsage_mini_format [OF h1 h2 h3, of "''age''" NewEmpty]
  show ?thesis using t h1 h2 [symmetric] b s e by simp
qed

section \<open>Properties of Parse\<close>

text \<open>
  Claim C9: called with an empty or unset argument list, \<open>Parse\<close> parses the process's own
  arguments; an empty non-nil list and a nil list both default to them. The code tests
  \<^verbatim>\<open>args == nil\<close> only. With the process arguments \<^verbatim>\<open>prog x\<close> and one optional bound
  argument, the nil list binds \<^verbatim>\<open>x\<close>; the empty list binds nothing and the argument keeps
  its default.
\<close>

theorem empty_list_not_defaulted_counterexample:
  "map_option V (fmlookup (bindArgs (fst (Parse strutilSpec AddPrefix flagParse None []
          \<lparr>shortsOrder = (\<lambda>i. []), optsOrder = [], argsOrder = [''name'']\<rparr> [''prog'', ''x'']
          (fst (BindArg (\<lambda>a. None) \<lparr>Name = ''name'', Desc = [], V = VNil, Index = 0, Required = False\<rparr>
             NewEmpty))
          None))) ''name'') = Some (VStr ''x'')
   \<and> map_option V (fmlookup (bindArgs (fst (Parse strutilSpec AddPrefix flagParse None []
          \<lparr>shortsOrder = (\<lambda>i. []), optsOrder = [], argsOrder = [''name'']\<rparr> [''prog'', ''x'']
          (fst (BindArg (\<lambda>a. None) \<lparr>Name = ''name'', Desc = [], V = VNil, Index = 0, Required = False\<rparr>
             NewEmpty))
          (Some [])))) ''name'') = Some VNil"
  by code_simp

text \<open>
  Claim C9, amended: called with a nil argument list, \<open>Parse\<close> parses the process's
  arguments after the program name, \<^verbatim>\<open>os.Args[1:]\<close>; called with a non-nil list, also an
  empty one, it parses that list, whatever the process's arguments are.
\<close>

theorem Parse_nil_defaults_to_process_args:
  "(osArgs \<noteq> [] \<longrightarrow>
      Parse su ap parse func names ord osArgs c None
        = Parse su ap parse func names ord osArgs c (Some (tl osArgs)))
   \<and> Parse su ap parse func names ord osArgs c (Some args)
        = Parse su ap parse func names ord osArgs' c (Some args)"
  by (simp add: Parse_def)

theorem Parse_nil_defaults_to_process_args_witness:
  "[''prog'', ''x''] \<noteq> []
   \<and> Parse strutilSpec AddPrefix flagParse None []
          \<lparr>shortsOrder = (\<lambda>i. []), optsOrder = [], argsOrder = [''name'']\<rparr> [''prog'', ''x'']
          (fst (BindArg (\<lambda>a. None) \<lparr>Name = ''name'', Desc = [], V = VNil, Index = 0, Required = False\<rparr>
             NewEmpty))
          None
     = Parse strutilSpec AddPrefix flagParse None []
          \<lparr>shortsOrder = (\<lambda>i. []), optsOrder = [], argsOrder = [''name'']\<rparr> [''prog'', ''x'']
          (fst (BindArg (\<lambda>a. None) \<lparr>Name = ''name'', Desc = [], V = VNil, Index = 0, Required = False\<rparr>
             NewEmpty))
          (Some [''x''])"
proof -
  have h: "[''prog'', ''x''] \<noteq> ([] :: string list)" by simp
  from Parse_nil_defaults_to_process_args
    [of "[''prog'', ''x'']" strutilSpec AddPrefix flagParse None "[]"
        "\<lparr>shortsOrder = (\<lambda>i. []), optsOrder = [], argsOrder = [''name'']\<rparr>"
        "fst (BindArg (\<lambda>a. None) \<lparr>Name = ''name'', Desc = [], V = VNil, Index = 0, Required = False\<rparr>
             NewEmpty)"]
  show ?thesis using h by simp
qed

end
